theory Spec2Isabelle
  imports Main "HOL-Library.Word"
begin

section \<open>Values crossing the queue: the image buffer and its wire form\<close>

text \<open>
  The worker (\<^verbatim>\<open>src/workers/insect.worker.ts\<close>) receives \<^verbatim>\<open>job.data.imageBuffer\<close> as
  whatever the broker's JSON transport hands back. The value is modelled as a JavaScript
  value of one of the shapes below. Arrays hold integer numbers (fractional numbers are
  outside the embedding); a string is a list of code units below 256. A plain object is
  kept as what the worker can observe of it: the two members it reads, \<^verbatim>\<open>type\<close> and
  \<^verbatim>\<open>data\<close> (\<open>JUndefined\<close> when the member is absent), and what the runtime's
  \<^verbatim>\<open>Buffer.from\<close> makes of the object as a whole. That outcome is decided by the
  object's other members: \<^verbatim>\<open>Buffer.from\<close> looks at \<^verbatim>\<open>valueOf\<close> and \<^verbatim>\<open>length\<close> before
  the tag, copies an array-like object (one with a \<^verbatim>\<open>length\<close> member, so that
  \<^verbatim>\<open>{length: 2}\<close> gives two zero bytes) without error, and raises a \<^verbatim>\<open>TypeError\<close> for
  an object that has none of these members and is not in the tagged form.
\<close>

type_synonym byte = "8 word"

datatype error =
    TypeError string
  | Error string

fun message :: "error \<Rightarrow> string" where
  "message (TypeError m) = m"
| "message (Error m) = m"

datatype jsval =
    JUndefined
  | JNull
  | JBool bool
  | JNum int
  | JStr string
  | JArr "int list"
  | JObj jsval jsval "error + byte list"
  | JBuffer "byte list"

text \<open>JavaScript truthiness, as used by \<^verbatim>\<open>imageBuffer && ...\<close>.\<close>

fun truthy :: "jsval \<Rightarrow> bool" where
  "truthy JUndefined = False"
| "truthy JNull = False"
| "truthy (JBool b) = b"
| "truthy (JNum n) = (n \<noteq> 0)"
| "truthy (JStr s) = (s \<noteq> [])"
| "truthy (JArr xs) = True"
| "truthy (JObj t d out) = True"
| "truthy (JBuffer bs) = True"

text \<open>Member reads \<^verbatim>\<open>v.type\<close> and \<^verbatim>\<open>v.data\<close>: only a plain object has them.\<close>

fun member_type :: "jsval \<Rightarrow> jsval" where
  "member_type (JObj t d out) = t"
| "member_type v = JUndefined"

fun member_data :: "jsval \<Rightarrow> jsval" where
  "member_data (JObj t d out) = d"
| "member_data v = JUndefined"

fun isArray :: "jsval \<Rightarrow> bool" where
  "isArray (JArr xs) = True"
| "isArray v = False"

text \<open>
  The runtime's \<^verbatim>\<open>Buffer.from\<close>. An array is copied element by element, each number
  reduced to eight bits; a string is encoded as UTF-8; a buffer is copied; a plain object
  gives the outcome it carries; undefined, null, a boolean and a number raise a
  \<^verbatim>\<open>TypeError\<close> (code \<^verbatim>\<open>ERR_INVALID_ARG_TYPE\<close>).
\<close>

definition toUint8 :: "int \<Rightarrow> byte" where
  "toUint8 n = word_of_int n"

definition utf8_unit :: "char \<Rightarrow> byte list" where
  "utf8_unit c =
     (let n = (of_char c :: nat)
      in if n < 128 then [of_nat n]
         else [of_nat (192 + n div 64), of_nat (128 + n mod 64)])"

definition utf8 :: "string \<Rightarrow> byte list" where
  "utf8 s = concat (map utf8_unit s)"

definition invalid_arg :: error where
  "invalid_arg = TypeError ''ERR_INVALID_ARG_TYPE''"

fun Buffer_from :: "jsval \<Rightarrow> error + byte list" where
  "Buffer_from (JBuffer bs) = Inr bs"
| "Buffer_from (JStr s) = Inr (utf8 s)"
| "Buffer_from (JArr xs) = Inr (map toUint8 xs)"
| "Buffer_from (JObj t d out) = out"
| "Buffer_from v = Inl invalid_arg"

text \<open>
  Lines 21 to 26 of the worker: the conversion of \<^verbatim>\<open>imageBuffer\<close> into
  \<^verbatim>\<open>actualBuffer\<close>.
\<close>

definition actualBuffer :: "jsval \<Rightarrow> error + byte list" where
  "actualBuffer imageBuffer =
     (if truthy imageBuffer \<and> member_type imageBuffer = JStr ''Buffer''
           \<and> isArray (member_data imageBuffer)
      then Buffer_from (member_data imageBuffer)
      else Buffer_from imageBuffer)"

text \<open>
  Modelled from the spec: the encoder is the broker's JSON transport, which is not part of
  the source. Section 4.2 and the worker's comment (\<^verbatim>\<open>Redis stores buffers as
  { type: 'Buffer', data: [numbers...] }\<close>) give the wire form of a byte sequence: an
  object with the tag, the bytes as its data array and no other member, of which
  \<^verbatim>\<open>Buffer.from\<close> makes the bytes again.
\<close>

definition toJSON :: "byte list \<Rightarrow> jsval" where
  "toJSON bs = JObj (JStr ''Buffer'') (JArr (map uint bs)) (Inr bs)"

text \<open>The two wire forms of section 4.2: a native byte sequence, and the tagged form.\<close>

fun is_native :: "jsval \<Rightarrow> bool" where
  "is_native (JBuffer bs) = True"
| "is_native v = False"

fun is_tagged :: "jsval \<Rightarrow> bool" where
  "is_tagged (JObj t d out) = (t = JStr ''Buffer'' \<and> isArray d)"
| "is_tagged v = False"

section \<open>The queue and its jobs\<close>

text \<open>
  \<^verbatim>\<open>InsectIdentificationJobData\<close> and the options given to the queue and to the worker
  (\<^verbatim>\<open>src/services/firebase.services.ts\<close>, lines 23 to 50;
  \<^verbatim>\<open>src/workers/insect.worker.ts\<close>, lines 56 to 63).
\<close>

record job_data =
  imageBuffer :: jsval
  imageMimetype :: string
  imageOriginalName :: string
  userId :: "string option"

datatype backoff_kind = Exponential | Fixed

record backoff_options =
  backoff_type :: backoff_kind
  backoff_delay :: nat

record keep_jobs =
  keep_age :: "nat option"
  keep_count :: "nat option"

record job_options =
  attempts :: nat
  backoff :: backoff_options
  removeOnComplete :: keep_jobs
  removeOnFail :: keep_jobs
  jobId :: "string option"

definition defaultJobOptions :: job_options where
  "defaultJobOptions =
     \<lparr> attempts = 3,
       backoff = \<lparr> backoff_type = Exponential, backoff_delay = 2000 \<rparr>,
       removeOnComplete = \<lparr> keep_age = Some 3600, keep_count = Some 100 \<rparr>,
       removeOnFail = \<lparr> keep_age = Some 86400, keep_count = None \<rparr>,
       jobId = None \<rparr>"

text \<open>
  The options of the connection (\<^verbatim>\<open>src/config/redis.config.ts\<close>, lines 8 to 14); host,
  port and password come from the environment and are left out.
\<close>

record redis_options =
  maxRetriesPerRequest :: "nat option"
  enableReadyCheck :: bool

definition redisConnection :: redis_options where
  "redisConnection = \<lparr> maxRetriesPerRequest = None, enableReadyCheck = False \<rparr>"

record limiter_options =
  limiter_max :: nat
  limiter_duration :: nat

record worker_options =
  concurrency :: nat
  limiter :: limiter_options

definition workerOptions :: worker_options where
  "workerOptions =
     \<lparr> concurrency = 5,
       limiter = \<lparr> limiter_max = 10, limiter_duration = 1000 \<rparr> \<rparr>"

text \<open>
  A job as the source sees it: the members read by the worker and by
  \<^verbatim>\<open>getJobStatus\<close>, with the state that \<^verbatim>\<open>job.getState()\<close> reports. Times are
  milliseconds; \<open>'r\<close> is the value the processor returns.
\<close>

datatype job_state = Waiting | Active | Completed | Failed | Delayed

record 'r job =
  job_id :: string
  job_name :: string
  job_payload :: job_data
  opts :: job_options
  state :: job_state
  progress :: nat
  attemptsMade :: nat
  delay :: nat
  returnvalue :: "'r option"
  failedReason :: "string option"
  timestamp :: nat
  processedOn :: "nat option"
  finishedOn :: "nat option"

section \<open>The worker's processor\<close>

text \<open>
  The function given to \<^verbatim>\<open>new Worker\<close> (\<^verbatim>\<open>src/workers/insect.worker.ts\<close>, lines 13
  to 55). \<^verbatim>\<open>InsectService.identifyInsect\<close> calls the external classification, storage
  and record services; it is a parameter, returning a result or the \<^verbatim>\<open>Error\<close> it
  throws. The processor's steps are logged in the order in which they run.
\<close>

record multer_file =
  fieldname :: string
  originalname :: string
  encoding :: string
  mimetype :: string
  buffer :: "byte list"
  file_size :: nat
  destination :: string
  filename :: string
  path :: string

record identification_request =
  req_image :: multer_file
  req_userId :: "string option"

datatype event = UpdateProgress nat | ConvertBuffer | IdentifyInsect

definition updateProgress :: "nat \<Rightarrow> 'r job \<times> event list \<Rightarrow> 'r job \<times> event list" where
  "updateProgress p s = (fst s \<lparr> progress := p \<rparr>, snd s @ [UpdateProgress p])"

definition imageFile :: "job_data \<Rightarrow> byte list \<Rightarrow> multer_file" where
  "imageFile d actual =
     \<lparr> fieldname = ''image'',
       originalname = imageOriginalName d,
       encoding = ''7bit'',
       mimetype = imageMimetype d,
       buffer = actual,
       file_size = length actual,
       destination = [],
       filename = [],
       path = [] \<rparr>"

definition processor ::
  "(identification_request \<Rightarrow> error + 'r) \<Rightarrow> 'r job \<Rightarrow> (error + 'r) \<times> 'r job \<times> event list"
where
  "processor identifyInsect j =
     (let d = job_payload j;
          s1 = updateProgress 10 (j, [])
      in case actualBuffer (imageBuffer d) of
           Inl e \<Rightarrow> (Inl e, fst s1, snd s1 @ [ConvertBuffer])
         | Inr actual \<Rightarrow>
             (let s2 = updateProgress 30 (fst s1, snd s1 @ [ConvertBuffer])
              in case identifyInsect
                        \<lparr> req_image = imageFile d actual, req_userId = userId d \<rparr> of
                   Inl e \<Rightarrow> (Inl e, fst s2, snd s2 @ [IdentifyInsect])
                 | Inr result \<Rightarrow>
                     (let s3 = updateProgress 100 (fst s2, snd s2 @ [IdentifyInsect])
                      in (Inr result, fst s3, snd s3))))"

section \<open>The broker\<close>

text \<open>
  The broker holds the jobs by identifier and may be unreachable.
\<close>

record 'r broker =
  jobs :: "string \<rightharpoonup> 'r job"
  reachable :: bool

text \<open>
  A command issued while the broker is unreachable is handled by the connection, whose
  code is not part of the source: the command is kept until the broker can be reached
  again, and is given up with an error only after \<^verbatim>\<open>maxRetriesPerRequest\<close> attempts to
  reconnect. When that option is null, as in the source, the command is never given up:
  the call does not return, which is the value \<open>None\<close>.
\<close>

definition while_unreachable :: "redis_options \<Rightarrow> (error + 'a) option" where
  "while_unreachable conn =
     (case maxRetriesPerRequest conn of
        None \<Rightarrow> None
      | Some n \<Rightarrow> Some (Inl (Error ''Reached the max retries per request limit'')))"

text \<open>
  Modelled from the spec: the broker's \<^verbatim>\<open>add\<close> is not part of the source. Sections 3
  and 4.1: the envelope is created with state \<^verbatim>\<open>WAITING\<close> and no attempts, under the
  given identifier and with the queue's default options, and is recorded before the call
  returns; the payload is stored in its wire form (section 4.2), a native byte sequence
  as the tagged form.
\<close>

definition wire_data :: "job_data \<Rightarrow> job_data" where
  "wire_data d =
     d \<lparr> imageBuffer := (case imageBuffer d of JBuffer bs \<Rightarrow> toJSON bs | v \<Rightarrow> v) \<rparr>"

definition queue_add ::
  "redis_options \<Rightarrow> job_options \<Rightarrow> 'r broker \<Rightarrow> nat \<Rightarrow> string \<Rightarrow> job_data \<Rightarrow> string
     \<Rightarrow> (error + ('r job \<times> 'r broker)) option"
where
  "queue_add conn defaults b now name d jid =
     (if \<not> reachable b then while_unreachable conn
      else
        (let j = \<lparr> job_id = jid, job_name = name, job_payload = wire_data d,
                   opts = defaults \<lparr> jobId := Some jid \<rparr>,
                   state = Waiting, progress = 0, attemptsMade = 0, delay = 0,
                   returnvalue = None, failedReason = None,
                   timestamp = now, processedOn = None, finishedOn = None \<rparr>
         in Some (Inr (j, b \<lparr> jobs := (jobs b)(jid \<mapsto> j) \<rparr>))))"

text \<open>
  Modelled from the spec: the broker's \<^verbatim>\<open>getJob\<close> is not part of the source. Section
  4.4: a job that was never issued and a job that retention has removed are both absent.
\<close>

definition queue_getJob ::
  "redis_options \<Rightarrow> 'r broker \<Rightarrow> string \<Rightarrow> (error + 'r job option) option"
where
  "queue_getJob conn b jid =
     (if \<not> reachable b then while_unreachable conn else Some (Inr (jobs b jid)))"


section \<open>The queue helpers\<close>

text \<open>
  \<^verbatim>\<open>addInsectIdentificationJob\<close> and \<^verbatim>\<open>getJobStatus\<close>
  (\<^verbatim>\<open>src/services/firebase.services.ts\<close>, lines 53 to 86), on the queue built with
  \<^verbatim>\<open>redisConnection\<close> and \<^verbatim>\<open>defaultJobOptions\<close>. \<^verbatim>\<open>Date.now()\<close> and the random suffix
  of the identifier are arguments. A call that does not return is \<open>None\<close>.
\<close>

fun digits :: "nat \<Rightarrow> string" where
  "digits n =
     (if n < 10 then [char_of (48 + n)]
      else digits (n div 10) @ [char_of (48 + n mod 10)])"

declare digits.simps [simp del]

definition new_jobId :: "nat \<Rightarrow> string \<Rightarrow> string" where
  "new_jobId now rnd = ''insect-'' @ digits now @ ''-'' @ rnd"

definition addInsectIdentificationJob ::
  "'r broker \<Rightarrow> nat \<Rightarrow> string \<Rightarrow> job_data \<Rightarrow> (error + (string \<times> 'r broker)) option"
where
  "addInsectIdentificationJob b now rnd d =
     (case queue_add redisConnection defaultJobOptions b now ''identify-insect'' d
             (new_jobId now rnd) of
        None \<Rightarrow> None
      | Some (Inl e) \<Rightarrow> Some (Inl e)
      | Some (Inr (j, b')) \<Rightarrow> Some (Inr (job_id j, b')))"

record 'r job_status =
  status_id :: string
  status_state :: job_state
  status_progress :: nat
  result :: "'r option"
  status_failedReason :: "string option"
  createdAt :: nat
  processedAt :: "nat option"
  finishedAt :: "nat option"

text \<open>\<^verbatim>\<open>t ? new Date(t) : null\<close>: an absent time and the time 0 both give null.\<close>

fun date_or_null :: "nat option \<Rightarrow> nat option" where
  "date_or_null None = None"
| "date_or_null (Some t) = (if t = 0 then None else Some t)"

definition getJobStatus ::
  "'r broker \<Rightarrow> string \<Rightarrow> (error + 'r job_status option) option"
where
  "getJobStatus b jid =
     (case queue_getJob redisConnection b jid of
        None \<Rightarrow> None
      | Some (Inl e) \<Rightarrow> Some (Inl e)
      | Some (Inr None) \<Rightarrow> Some (Inr None)
      | Some (Inr (Some j)) \<Rightarrow>
          Some (Inr (Some \<lparr> status_id = job_id j,
                            status_state = state j,
                            status_progress = progress j,
                            result = returnvalue j,
                            status_failedReason = failedReason j,
                            createdAt = timestamp j,
                            processedAt = date_or_null (processedOn j),
                            finishedAt = date_or_null (finishedOn j) \<rparr>)))"

section \<open>The routes\<close>

text \<open>
  The handlers of \<^verbatim>\<open>POST /identify\<close> and \<^verbatim>\<open>GET /status/:jobId\<close>
  (\<^verbatim>\<open>src/routes/insect.routes.ts\<close>, lines 32 to 95), on the request as it reaches
  them: \<^verbatim>\<open>req.file\<close> set by the upload middleware or absent, \<^verbatim>\<open>req.user?.uid\<close> and
  \<^verbatim>\<open>req.body.userId\<close>. A handler that sends no response is \<open>None\<close>.
\<close>

record identify_request =
  req_file :: "multer_file option"
  user_uid :: "string option"
  body_userId :: "string option"

record identify_response =
  status :: nat
  error_text :: "string option"
  message_text :: "string option"
  response_jobId :: "string option"
  statusUrl :: "string option"

text \<open>\<^verbatim>\<open>a || b\<close> on optional strings: the first that is present and not empty.\<close>

fun or_else :: "string option \<Rightarrow> string option \<Rightarrow> string option" where
  "or_else (Some a) b = (if a \<noteq> [] then Some a else b)"
| "or_else None b = b"

definition post_identify ::
  "'r broker \<Rightarrow> nat \<Rightarrow> string \<Rightarrow> identify_request
     \<Rightarrow> (identify_response \<times> 'r broker) option"
where
  "post_identify b now rnd req =
     (case req_file req of
        None \<Rightarrow>
          Some (\<lparr> status = 400, error_text = Some ''Image file is required'',
                   message_text = None, response_jobId = None, statusUrl = None \<rparr>, b)
      | Some f \<Rightarrow>
          (let uid = or_else (user_uid req) (or_else (body_userId req) None)
           in case addInsectIdentificationJob b now rnd
                     \<lparr> imageBuffer = JBuffer (buffer f),
                       imageMimetype = mimetype f,
                       imageOriginalName = originalname f,
                       userId = uid \<rparr> of
                None \<Rightarrow> None
              | Some (Inr (jid, b')) \<Rightarrow>
                  Some (\<lparr> status = 202, error_text = None,
                           message_text = Some ''Identification job queued successfully'',
                           response_jobId = Some jid,
                           statusUrl = Some (''/api/mobile/insect/status/'' @ jid) \<rparr>, b')
              | Some (Inl e) \<Rightarrow>
                  Some (\<lparr> status = 500,
                           error_text = or_else (Some (message e))
                                          (Some ''Failed to queue identification job''),
                           message_text = None, response_jobId = None,
                           statusUrl = None \<rparr>, b)))"



section \<open>The life of a job under the broker\<close>

text \<open>
  Modelled from the spec: the broker's claim, completion, retry and failure transitions
  are not part of the source. Section 4.3: claiming a waiting envelope makes it active,
  counts the attempt, sets the start time and resets the progress; a result completes it,
  with the finish time and the result; an error with attempts left delays it by the
  backoff of that attempt (section 4.1: \<^verbatim>\<open>2000 * 2^(n-1)\<close> for attempt \<open>n\<close>), after
  which it waits again; an error on the last attempt fails it, with the finish time and
  the error's message. The progress of a completed envelope is the one the processor
  reported last.
\<close>

definition claim :: "nat \<Rightarrow> 'r job \<Rightarrow> 'r job" where
  "claim now j =
     j \<lparr> state := Active, attemptsMade := attemptsMade j + 1,
         processedOn := Some now, progress := 0 \<rparr>"

definition moveToCompleted :: "nat \<Rightarrow> 'r \<Rightarrow> 'r job \<Rightarrow> 'r job" where
  "moveToCompleted now r j =
     j \<lparr> state := Completed, returnvalue := Some r, finishedOn := Some now \<rparr>"

definition moveToFailed :: "nat \<Rightarrow> error \<Rightarrow> 'r job \<Rightarrow> 'r job" where
  "moveToFailed now e j =
     j \<lparr> state := Failed, failedReason := Some (message e), finishedOn := Some now \<rparr>"

definition backoff_of :: "job_options \<Rightarrow> nat \<Rightarrow> nat" where
  "backoff_of opt n =
     (case backoff_type (backoff opt) of
        Exponential \<Rightarrow> backoff_delay (backoff opt) * 2 ^ (n - 1)
      | Fixed \<Rightarrow> backoff_delay (backoff opt))"

definition moveToDelayed :: "'r job \<Rightarrow> 'r job" where
  "moveToDelayed j = j \<lparr> state := Delayed, delay := backoff_of (opts j) (attemptsMade j) \<rparr>"

definition promote :: "'r job \<Rightarrow> 'r job" where
  "promote j = j \<lparr> state := Waiting \<rparr>"

text \<open>
  What surrounds one attempt: the time of the claim, the behaviour of the external
  classification on that attempt, and the time at which the attempt is settled.
\<close>

record 'r attempt_env =
  claimedAt :: nat
  classification :: "identification_request \<Rightarrow> error + 'r"
  settledAt :: nat

text \<open>
  Modelled from the spec: the worker pool's loop over the attempts of one job (section
  4.3), running the source's processor on each claim. The result is the list of the
  envelope's successive values, the last one terminal; \<open>env n\<close> surrounds attempt \<open>n\<close>.
\<close>

function run_job :: "(nat \<Rightarrow> 'r attempt_env) \<Rightarrow> 'r job \<Rightarrow> 'r job list" where
  "run_job env j =
     (if state j \<noteq> Waiting then []
      else
        (let n = attemptsMade j + 1;
             a = claim (claimedAt (env n)) j;
             run = processor (classification (env n)) a;
             p = fst (snd run)
         in case fst run of
              Inr r \<Rightarrow> [a, p, moveToCompleted (settledAt (env n)) r p]
            | Inl e \<Rightarrow>
                if attemptsMade p < attempts (opts p)
                then [a, p, moveToDelayed p, promote (moveToDelayed p)]
                       @ run_job env (promote (moveToDelayed p))
                else [a, p, moveToFailed (settledAt (env n)) e p]))"
  by pat_completeness auto

termination run_job
proof (relation "measure (\<lambda>(env, j). attempts (opts j) - attemptsMade j)")
  show "wf (measure (\<lambda>(env, j). attempts (opts j) - attemptsMade (j :: 'a job)))"
    by simp
next
  fix env :: "nat \<Rightarrow> 'a attempt_env" and j :: "'a job" and n a run p x1
  assume a: "a = claim (claimedAt (env n)) j"
    and run: "run = processor (classification (env n)) a" and p: "p = fst (snd run)"
    and lt: "attemptsMade p < attempts (opts p)"
  have "attemptsMade p = attemptsMade a" "opts p = opts a"
    using run p
    by (simp_all add: processor_def updateProgress_def Let_def split: sum.splits)
  then have "attemptsMade p = attemptsMade j + 1" "opts p = opts j"
    using a by (simp_all add: claim_def)
  then show "((env, promote (moveToDelayed p)), env, j)
               \<in> measure (\<lambda>(env, j). attempts (opts j) - attemptsMade j)"
    using lt by (simp add: promote_def moveToDelayed_def)
qed

declare run_job.simps [simp del]

section \<open>What a status shows, and retention\<close>

text \<open>
  The terminal exclusivity of section 3, read on a status: a completed job shows a result
  and no failure reason, a failed job a failure reason and no result, any other job
  neither.
\<close>

definition exclusive :: "'r job_status \<Rightarrow> bool" where
  "exclusive st =
     (case status_state st of
        Completed \<Rightarrow> result st \<noteq> None \<and> status_failedReason st = None
      | Failed \<Rightarrow> result st = None \<and> status_failedReason st \<noteq> None
      | _ \<Rightarrow> result st = None \<and> status_failedReason st = None)"

text \<open>
  Modelled from the spec: the broker's retention is not part of the source. Section 4.1:
  a terminal envelope is eligible for removal once its age exceeds the \<^verbatim>\<open>age\<close> (in
  seconds) of the policy for its state, or once as many later-finished envelopes of its
  state exist as the policy's \<^verbatim>\<open>count\<close>, so that the oldest go first. The policy is
  the one in the envelope's options, \<^verbatim>\<open>removeOnComplete\<close> or \<^verbatim>\<open>removeOnFail\<close>.
\<close>

definition finished_at :: "'r job \<Rightarrow> nat" where
  "finished_at j = (case finishedOn j of Some t \<Rightarrow> t | None \<Rightarrow> 0)"

definition expired :: "keep_jobs \<Rightarrow> nat \<Rightarrow> 'r job \<Rightarrow> bool" where
  "expired k now j =
     (case keep_age k of None \<Rightarrow> False | Some a \<Rightarrow> finished_at j + a * 1000 < now)"

definition newer :: "'r job list \<Rightarrow> 'r job \<Rightarrow> nat" where
  "newer js j =
     length (filter (\<lambda>i. state i = state j \<and> finished_at j < finished_at i) js)"

definition over_count :: "keep_jobs \<Rightarrow> 'r job list \<Rightarrow> 'r job \<Rightarrow> bool" where
  "over_count k js j =
     (case keep_count k of None \<Rightarrow> False | Some c \<Rightarrow> c \<le> newer js j)"

definition eligible :: "nat \<Rightarrow> 'r job list \<Rightarrow> 'r job \<Rightarrow> bool" where
  "eligible now js j =
     (case state j of
        Completed \<Rightarrow>
          expired (removeOnComplete (opts j)) now j
            \<or> over_count (removeOnComplete (opts j)) js j
      | Failed \<Rightarrow>
          expired (removeOnFail (opts j)) now j \<or> over_count (removeOnFail (opts j)) js j
      | _ \<Rightarrow> False)"

text \<open>
  One attempt, named by its two steps: the envelope as claimed for its next attempt, and
  the envelope as the processor leaves it.
\<close>

definition claimed :: "(nat \<Rightarrow> 'r attempt_env) \<Rightarrow> 'r job \<Rightarrow> 'r job" where
  "claimed env j = claim (claimedAt (env (attemptsMade j + 1))) j"

definition processed :: "(nat \<Rightarrow> 'r attempt_env) \<Rightarrow> 'r job \<Rightarrow> 'r job" where
  "processed env j =
     fst (snd (processor (classification (env (attemptsMade j + 1))) (claimed env j)))"

text \<open>
  A job whose pipeline fails on every attempt: its payload does not decode, or the
  classification fails whenever it is called.
\<close>

definition always_fails :: "(nat \<Rightarrow> 'r attempt_env) \<Rightarrow> 'r job \<Rightarrow> bool" where
  "always_fails env j \<longleftrightarrow>
     isl (actualBuffer (imageBuffer (job_payload j)))
     \<or> (\<forall>n q. isl (classification (env n) q))"

text \<open>
  The exclusivity of section 3, read on the envelope itself, and its part that concerns
  the result and the failed state only.
\<close>

definition settled :: "'r job \<Rightarrow> bool" where
  "settled s =
     (case state s of
        Completed \<Rightarrow> returnvalue s \<noteq> None \<and> failedReason s = None
      | Failed \<Rightarrow> returnvalue s = None \<and> failedReason s \<noteq> None
      | _ \<Rightarrow> returnvalue s = None \<and> failedReason s = None)"

definition result_held :: "'r job \<Rightarrow> bool" where
  "result_held s =
     (case state s of
        Completed \<Rightarrow> returnvalue s \<noteq> None
      | Failed \<Rightarrow> returnvalue s = None \<and> failedReason s \<noteq> None
      | _ \<Rightarrow> returnvalue s = None)"

section \<open>Sample values\<close>

text \<open>
  A payload of two bytes, an empty reachable broker, the envelope that enqueueing the
  payload creates, and two surroundings: one where the classification always fails, one
  where it always succeeds.
\<close>

definition sample_data :: job_data where
  "sample_data =
     \<lparr> imageBuffer = JBuffer [1, 2], imageMimetype = ''image/png'',
       imageOriginalName = ''a.png'', userId = None \<rparr>"

definition sample_broker :: "nat broker" where
  "sample_broker = \<lparr> jobs = Map.empty, reachable = True \<rparr>"

definition sample_job :: "nat job" where
  "sample_job =
     \<lparr> job_id = ''insect-1-a'', job_name = ''identify-insect'',
       job_payload = wire_data sample_data,
       opts = defaultJobOptions \<lparr> jobId := Some ''insect-1-a'' \<rparr>,
       state = Waiting, progress = 0, attemptsMade = 0, delay = 0,
       returnvalue = None, failedReason = None,
       timestamp = 1, processedOn = None, finishedOn = None \<rparr>"

definition failing_env :: "nat \<Rightarrow> nat attempt_env" where
  "failing_env n =
     \<lparr> claimedAt = 10 * n,
       classification = (\<lambda>q. Inl (Error ''Failed to identify insect'')),
       settledAt = 10 * n + 5 \<rparr>"

definition succeeding_env :: "nat \<Rightarrow> nat attempt_env" where
  "succeeding_env n =
     \<lparr> claimedAt = 10 * n, classification = (\<lambda>q. Inr 7), settledAt = 10 * n + 5 \<rparr>"

text \<open>The sample envelope, completed by its first attempt.\<close>

definition sample_completed :: "nat job" where
  "sample_completed = moveToCompleted 15 7 (processed succeeding_env sample_job)"

text \<open>
  The sample envelope as a broker holds it that records, in \<^verbatim>\<open>failedReason\<close>, the
  message of every failed attempt and never clears it: delayed after a first attempt that
  failed, and completed by a second attempt.
\<close>

definition delayed_after_failure :: "nat job" where
  "delayed_after_failure =
     sample_job \<lparr> state := Delayed, progress := 30, attemptsMade := 1, delay := 2000,
                  failedReason := Some ''Failed to identify insect'',
                  processedOn := Some 10 \<rparr>"

definition completed_after_retry :: "nat job" where
  "completed_after_retry =
     sample_job \<lparr> state := Completed, progress := 100, attemptsMade := 2, delay := 2000,
                  returnvalue := Some 7,
                  failedReason := Some ''Failed to identify insect'',
                  processedOn := Some 2020, finishedOn := Some 2025 \<rparr>"

text \<open>
  The object \<^verbatim>\<open>{length: 2}\<close>: it has neither a \<^verbatim>\<open>type\<close> nor a \<^verbatim>\<open>data\<close> member, and
  \<^verbatim>\<open>Buffer.from\<close> copies it as an array-like object of two absent elements, which gives
  two zero bytes.
\<close>

definition length_two_object :: jsval where
  "length_two_object = JObj JUndefined JUndefined (Inr [0, 0])"

text \<open>An uploaded file of two bytes.\<close>

definition sample_file :: multer_file where
  "sample_file =
     \<lparr> fieldname = ''image'', originalname = ''a.png'', encoding = ''7bit'',
       mimetype = ''image/png'', buffer = [1, 2], file_size = 2,
       destination = [], filename = [], path = [] \<rparr>"


section \<open>The payload codec\<close>

lemma toUint8_uint: "toUint8 (uint b) = b"
  by (simp add: toUint8_def)

lemma map_toUint8_uint: "map (toUint8 \<circ> uint) bs = bs"
  by (induction bs) (simp_all add: toUint8_uint)

text \<open>
  C1. Decoding reconstructs the image bytes exactly: the tagged structural form of a byte
  sequence decodes to that sequence, a native byte sequence passes through unchanged, and
  so the bytes of a payload, put on the wire by the broker, come back as they were.
\<close>

theorem actualBuffer_roundtrip:
  "actualBuffer (toJSON bs) = Inr bs
   \<and> actualBuffer (JBuffer bs) = Inr bs
   \<and> actualBuffer (imageBuffer (wire_data (d \<lparr> imageBuffer := JBuffer bs \<rparr>))) = Inr bs"
  by (simp add: actualBuffer_def toJSON_def wire_data_def map_toUint8_uint)

text \<open>
  C6, as stated, fails: a bare array of numbers is neither a native byte sequence nor the
  tagged form, and the conversion turns it into bytes without any error.
\<close>

theorem actualBuffer_bare_array:
  "\<not> is_native (JArr [1, 2, 3]) \<and> \<not> is_tagged (JArr [1, 2, 3])
   \<and> actualBuffer (JArr [1, 2, 3]) = Inr [1, 2, 3]"
  by (simp add: actualBuffer_def toUint8_def)

text \<open>
  C6, amended. A wire form that is neither a native byte sequence nor the tagged form is
  handed to \<^verbatim>\<open>Buffer.from\<close> as it is, and no error of the worker's own is raised: a
  string becomes its UTF-8 bytes and a bare array of integers its elements reduced to
  eight bits, both without error; undefined, null, a boolean and a number make the
  conversion fail with the runtime's \<^verbatim>\<open>TypeError\<close>; an object without the tag is
  converted or rejected as \<^verbatim>\<open>Buffer.from\<close> decides from its other members.
\<close>

theorem actualBuffer_other_forms:
  assumes "\<not> is_native v" and "\<not> is_tagged v"
  shows "actualBuffer v =
           (case v of
              JStr s \<Rightarrow> Inr (utf8 s)
            | JArr xs \<Rightarrow> Inr (map toUint8 xs)
            | JObj t d out \<Rightarrow> out
            | _ \<Rightarrow> Inl invalid_arg)"
  using assms by (cases v) (auto simp: actualBuffer_def)

theorem actualBuffer_other_forms_witness:
  "\<not> is_native JNull \<and> \<not> is_tagged JNull \<and> actualBuffer JNull = Inl invalid_arg
   \<and> \<not> is_native length_two_object \<and> \<not> is_tagged length_two_object
   \<and> actualBuffer length_two_object = Inr [0, 0]"
  using actualBuffer_other_forms [of JNull] actualBuffer_other_forms [of length_two_object]
  by (simp add: length_two_object_def)

section \<open>Enqueueing\<close>

text \<open>
  C10. A request that carries no uploaded file is answered with status 400 and the error
  \<^verbatim>\<open>Image file is required\<close>; the broker is left as it was, whatever its state, so no
  envelope is created and no job identifier is issued.
\<close>

theorem post_identify_without_file:
  "post_identify b now rnd (req \<lparr> req_file := None \<rparr>) =
     Some (\<lparr> status = 400, error_text = Some ''Image file is required'',
              message_text = None, response_jobId = None, statusUrl = None \<rparr>, b)"
  by (simp add: post_identify_def)

text \<open>
  C8, as stated, fails: with the broker unreachable, enqueueing does not fail with an
  error. The connection never gives a command up, so the call does not return and the
  handler sends no response.
\<close>

theorem enqueue_unreachable_waits:
  "addInsectIdentificationJob
     (\<lparr> jobs = Map.empty, reachable = False \<rparr> :: nat broker) 1 ''a'' sample_data = None
   \<and> post_identify (\<lparr> jobs = Map.empty, reachable = False \<rparr> :: nat broker) 1 ''a''
       \<lparr> req_file = Some sample_file, user_uid = None, body_userId = None \<rparr> = None"
  by (simp add: addInsectIdentificationJob_def queue_add_def while_unreachable_def
        redisConnection_def post_identify_def)

text \<open>
  C8, amended. While the broker is unreachable, enqueueing neither fails nor returns: no
  job identifier is returned, no response is sent and no envelope is created. When the
  broker is reachable, enqueueing returns the new identifier and a broker that differs
  only by holding, under that identifier, a waiting envelope with no attempt made, not
  started and not finished; the response carries status 202 and that identifier.
\<close>

theorem enqueue_outcome:
  "(let jid = new_jobId now rnd
    in case addInsectIdentificationJob b now rnd d of
         None \<Rightarrow> \<not> reachable b
       | Some (Inl e) \<Rightarrow> False
       | Some (Inr (i, b')) \<Rightarrow>
           reachable b \<and> i = jid \<and> b' = b \<lparr> jobs := (jobs b)(jid := jobs b' jid) \<rparr>
           \<and> (case jobs b' jid of
                 None \<Rightarrow> False
               | Some j \<Rightarrow>
                   job_id j = jid \<and> state j = Waiting \<and> attemptsMade j = 0
                   \<and> progress j = 0 \<and> processedOn j = None \<and> finishedOn j = None
                   \<and> returnvalue j = None \<and> failedReason j = None
                   \<and> job_payload j = wire_data d))
   \<and> (let jid = new_jobId now rnd
       in case post_identify b now rnd (req \<lparr> req_file := Some f \<rparr>) of
            None \<Rightarrow> \<not> reachable b
          | Some (resp, b') \<Rightarrow>
              reachable b \<and> status resp = 202 \<and> response_jobId resp = Some jid
              \<and> jobs b' jid \<noteq> None)"
  by (simp add: addInsectIdentificationJob_def queue_add_def while_unreachable_def
        redisConnection_def post_identify_def Let_def)

section \<open>Reading a status\<close>


lemma sample_completed_fields:
  "job_id sample_completed = ''insect-1-a''" "state sample_completed = Completed"
  "progress sample_completed = 100" "returnvalue sample_completed = Some 7"
  "failedReason sample_completed = None" "timestamp sample_completed = 1"
  "processedOn sample_completed = Some 10" "finishedOn sample_completed = Some 15"
  by (simp_all add: sample_completed_def moveToCompleted_def processed_def processor_def
        updateProgress_def claimed_def claim_def succeeding_env_def sample_job_def
        sample_data_def wire_data_def actualBuffer_def toJSON_def Let_def)


section \<open>One attempt after another\<close>

lemma processor_keeps:
  "state (fst (snd (processor c a))) = state a"
  "attemptsMade (fst (snd (processor c a))) = attemptsMade a"
  "opts (fst (snd (processor c a))) = opts a"
  "job_payload (fst (snd (processor c a))) = job_payload a"
  "delay (fst (snd (processor c a))) = delay a"
  "returnvalue (fst (snd (processor c a))) = returnvalue a"
  "failedReason (fst (snd (processor c a))) = failedReason a"
  "job_id (fst (snd (processor c a))) = job_id a"
  by (simp_all add: processor_def updateProgress_def Let_def split: sum.splits)

lemma processor_fails:
  assumes "isl (actualBuffer (imageBuffer (job_payload a))) \<or> (\<forall>q. isl (c q))"
  shows "isl (fst (processor c a))"
proof (cases "actualBuffer (imageBuffer (job_payload a))")
  case (Inl e)
  then show ?thesis by (simp add: processor_def Let_def)
next
  case (Inr actual)
  with assms have "\<forall>q. isl (c q)" by simp
  then have "isl (c \<lparr> req_image = imageFile (job_payload a) actual,
                       req_userId = userId (job_payload a) \<rparr>)" ..
  with Inr show ?thesis
    by (auto simp: processor_def Let_def isl_def)
qed

lemma run_job_not_waiting: "state j \<noteq> Waiting \<Longrightarrow> run_job env j = []"
  by (subst run_job.simps) simp

lemma run_job_retry:
  assumes "state j = Waiting"
    and "isl (fst (processor (classification (env (attemptsMade j + 1))) (claimed env j)))"
    and "attemptsMade j + 1 < attempts (opts j)"
  shows "run_job env j =
           [claimed env j, processed env j, moveToDelayed (processed env j),
            promote (moveToDelayed (processed env j))]
           @ run_job env (promote (moveToDelayed (processed env j)))"
proof -
  have "attemptsMade (processed env j) < attempts (opts (processed env j))"
    using assms(3) by (simp add: processed_def processor_keeps claimed_def claim_def)
  then show ?thesis
    using assms(1,2)
    by (subst run_job.simps)
       (auto simp: Let_def processed_def claimed_def isl_def)
qed

lemma run_job_fail:
  assumes "state j = Waiting"
    and "fst (processor (classification (env (attemptsMade j + 1))) (claimed env j)) = Inl e"
    and "\<not> attemptsMade j + 1 < attempts (opts j)"
  shows "run_job env j =
           [claimed env j, processed env j,
            moveToFailed (settledAt (env (attemptsMade j + 1))) e (processed env j)]"
proof -
  have "\<not> attemptsMade (processed env j) < attempts (opts (processed env j))"
    using assms(3) by (simp add: processed_def processor_keeps claimed_def claim_def)
  then show ?thesis
    using assms(1,2)
    by (subst run_job.simps)
       (auto simp: Let_def processed_def claimed_def)
qed

lemma run_job_complete:
  assumes "state j = Waiting"
    and "fst (processor (classification (env (attemptsMade j + 1))) (claimed env j)) = Inr r"
  shows "run_job env j =
           [claimed env j, processed env j,
            moveToCompleted (settledAt (env (attemptsMade j + 1))) r (processed env j)]"
  using assms
  by (subst run_job.simps) (auto simp: Let_def processed_def claimed_def)

lemma retried_fields:
  "state (promote (moveToDelayed (processed env j))) = Waiting"
  "attemptsMade (promote (moveToDelayed (processed env j))) = attemptsMade j + 1"
  "opts (promote (moveToDelayed (processed env j))) = opts j"
  "job_payload (promote (moveToDelayed (processed env j))) = job_payload j"
  "returnvalue (promote (moveToDelayed (processed env j))) = returnvalue j"
  "failedReason (promote (moveToDelayed (processed env j))) = failedReason j"
  "delay (promote (moveToDelayed (processed env j))) = backoff_of (opts j) (attemptsMade j + 1)"
  by (simp_all add: promote_def moveToDelayed_def processed_def processor_keeps
        claimed_def claim_def)

lemma claimed_fields:
  "state (claimed env j) = Active"
  "attemptsMade (claimed env j) = attemptsMade j + 1"
  "state (processed env j) = Active"
  "attemptsMade (processed env j) = attemptsMade j + 1"
  "state (moveToDelayed (processed env j)) = Delayed"
  "attemptsMade (moveToDelayed (processed env j)) = attemptsMade j + 1"
  "delay (moveToDelayed (processed env j)) = backoff_of (opts j) (attemptsMade j + 1)"
  "state (moveToFailed t e (processed env j)) = Failed"
  "attemptsMade (moveToFailed t e (processed env j)) = attemptsMade j + 1"
  by (simp_all add: claimed_def claim_def processed_def processor_keeps moveToDelayed_def
        moveToFailed_def)

lemma always_fails_claimed:
  assumes "always_fails env j"
  shows "isl (fst (processor (classification (env (attemptsMade j + 1))) (claimed env j)))"
proof -
  have "job_payload (claimed env j) = job_payload j"
    by (simp add: claimed_def claim_def)
  with assms show ?thesis
    by (intro processor_fails) (auto simp: always_fails_def)
qed

lemma always_fails_retried:
  "always_fails env j \<Longrightarrow> always_fails env (promote (moveToDelayed (processed env j)))"
  by (simp add: always_fails_def retried_fields)

lemma queue_add_job:
  assumes "queue_add conn defaults b now name d jid = Some (Inr (j, b'))"
  shows "state j = Waiting" and "attemptsMade j = 0"
    and "opts j = defaults \<lparr> jobId := Some jid \<rparr>"
    and "returnvalue j = None" and "failedReason j = None" and "job_id j = jid"
  using assms
  by (auto simp: queue_add_def while_unreachable_def Let_def
           split: if_splits option.splits)

lemma sample_enqueued:
  "queue_add redisConnection defaultJobOptions sample_broker 1 ''identify-insect''
       sample_data ''insect-1-a''
     = Some (Inr (sample_job,
                  sample_broker
                    \<lparr> jobs := (jobs sample_broker)(''insect-1-a'' \<mapsto> sample_job) \<rparr>))"
  by (simp add: queue_add_def sample_broker_def sample_job_def Let_def)

lemma sample_completes:
  "run_job succeeding_env sample_job =
     [claimed succeeding_env sample_job, processed succeeding_env sample_job,
      moveToCompleted 15 7 (processed succeeding_env sample_job)]"
proof -
  have "state sample_job = Waiting"
    by (simp add: sample_job_def)
  moreover have
    "fst (processor (classification (succeeding_env (attemptsMade sample_job + 1)))
            (claimed succeeding_env sample_job)) = Inr 7"
    by (simp add: processor_def Let_def claimed_def claim_def sample_job_def sample_data_def
          wire_data_def succeeding_env_def actualBuffer_def toJSON_def)
  ultimately show ?thesis
    using run_job_complete [of sample_job succeeding_env 7]
    by (simp add: succeeding_env_def sample_job_def)
qed

text \<open>
  C2. A job enqueued with the queue's options whose pipeline fails on every attempt is
  claimed three times and no more: it is delayed after the first and the second attempt,
  by 2000 ms and 4000 ms, and is failed by the third. The backoff of attempt \<open>n\<close> is
  \<open>2000 * 2 ^ (n - 1)\<close> ms.
\<close>

theorem failing_job_three_attempts:
  assumes "queue_add redisConnection defaultJobOptions b now name d jid = Some (Inr (j, b'))"
    and "always_fails env j"
  shows "map state (run_job env j) =
           [Active, Active, Delayed, Waiting,
            Active, Active, Delayed, Waiting,
            Active, Active, Failed]
         \<and> map attemptsMade (run_job env j) = [1, 1, 1, 1, 2, 2, 2, 2, 3, 3, 3]
         \<and> map delay (filter (\<lambda>s. state s = Delayed) (run_job env j)) = [2000, 4000]
         \<and> backoff_of (opts j) n = 2000 * 2 ^ (n - 1)"
proof -
  note fresh = queue_add_job [OF assms(1)]
  define j1 where "j1 = promote (moveToDelayed (processed env j))"
  define j2 where "j2 = promote (moveToDelayed (processed env j1))"
  have att: "attempts (opts j) = 3"
    using fresh(3) by (simp add: defaultJobOptions_def)
  have boff: "backoff_of (opts j) n = 2000 * 2 ^ (n - 1)" for n
    using fresh(3) by (simp add: defaultJobOptions_def backoff_of_def)
  have f1: "state j1 = Waiting" "attemptsMade j1 = 1" "opts j1 = opts j" "always_fails env j1"
    unfolding j1_def using fresh(2) assms(2)
    by (simp_all add: retried_fields always_fails_retried)
  have f2: "state j2 = Waiting" "attemptsMade j2 = 2" "opts j2 = opts j" "always_fails env j2"
    unfolding j2_def using f1 by (simp_all add: retried_fields always_fails_retried)
  obtain e where e: "fst (processor (classification (env (attemptsMade j2 + 1)))
                        (claimed env j2)) = Inl e"
    using always_fails_claimed [OF f2(4)] by (auto simp: isl_def)
  have r0: "run_job env j =
              [claimed env j, processed env j, moveToDelayed (processed env j), j1]
              @ run_job env j1"
    unfolding j1_def
    using fresh(1,2) att by (intro run_job_retry always_fails_claimed assms(2)) simp_all
  have r1: "run_job env j1 =
              [claimed env j1, processed env j1, moveToDelayed (processed env j1), j2]
              @ run_job env j2"
    unfolding j2_def
    using f1 att by (intro run_job_retry always_fails_claimed) simp_all
  have r2: "run_job env j2 =
              [claimed env j2, processed env j2,
               moveToFailed (settledAt (env (attemptsMade j2 + 1))) e (processed env j2)]"
    using f2 att e by (intro run_job_fail) simp_all
  have "map state (run_job env j) =
           [Active, Active, Delayed, Waiting,
            Active, Active, Delayed, Waiting,
            Active, Active, Failed]"
    by (simp add: r0 r1 r2 claimed_fields f1 f2)
  moreover have "map attemptsMade (run_job env j) = [1, 1, 1, 1, 2, 2, 2, 2, 3, 3, 3]"
    by (simp add: r0 r1 r2 claimed_fields f1 f2 fresh(2))
  moreover have "map delay (filter (\<lambda>s. state s = Delayed) (run_job env j)) = [2000, 4000]"
    by (simp add: r0 r1 r2 claimed_fields f1 f2 fresh(2) boff)
  ultimately show ?thesis
    using boff by simp
qed

theorem failing_job_three_attempts_witness:
  "always_fails failing_env sample_job
   \<and> map state (run_job failing_env sample_job) =
       [Active, Active, Delayed, Waiting,
        Active, Active, Delayed, Waiting,
        Active, Active, Failed]
   \<and> map attemptsMade (run_job failing_env sample_job) = [1, 1, 1, 1, 2, 2, 2, 2, 3, 3, 3]
   \<and> map delay (filter (\<lambda>s. state s = Delayed) (run_job failing_env sample_job))
       = [2000, 4000]"
proof -
  have f: "always_fails failing_env sample_job"
    by (simp add: always_fails_def failing_env_def)
  show ?thesis
    using failing_job_three_attempts [OF sample_enqueued f] f by simp
qed

section \<open>The processor's pipeline\<close>

text \<open>
  C5, as stated, fails: on a job whose payload decodes and whose classification succeeds,
  the processor reports progress 10 before it converts the buffer, so its steps are not
  in the order decode, progress 10, classification, progress 100, even leaving the report
  of progress 30 aside.
\<close>

theorem processor_reports_before_decoding:
  "filter (\<lambda>e. e \<noteq> UpdateProgress 30)
     (snd (snd (processor (\<lambda>q. Inr (7 :: nat))
        \<lparr> job_id = ''insect-1-a'', job_name = ''identify-insect'',
          job_payload = \<lparr> imageBuffer = toJSON [1, 2], imageMimetype = ''image/png'',
                          imageOriginalName = ''a.png'', userId = None \<rparr>,
          opts = defaultJobOptions,
          state = Active, progress = 0, attemptsMade = 1, delay = 0,
          returnvalue = None, failedReason = None,
          timestamp = 1, processedOn = Some 2, finishedOn = None \<rparr>)))
     = [UpdateProgress 10, ConvertBuffer, IdentifyInsect, UpdateProgress 100]
   \<and> [UpdateProgress 10, ConvertBuffer, IdentifyInsect, UpdateProgress 100]
     \<noteq> [ConvertBuffer, UpdateProgress 10, IdentifyInsect, UpdateProgress 100]"
  by (simp add: processor_def updateProgress_def Let_def actualBuffer_def toJSON_def)

text \<open>
  C5, amended. Per claimed envelope the processor reports progress 10, then converts the
  payload, then reports progress 30, then invokes the classification, then reports
  progress 100 on success. When the payload decodes and the classification succeeds, the
  processor returns the classification's result with the progress at 100, and a waiting
  job so processed finishes completed, with progress 100 and that result populated.
\<close>

theorem processor_order:
  assumes "actualBuffer (imageBuffer (job_payload j)) = Inr actual"
    and "identifyInsect \<lparr> req_image = imageFile (job_payload j) actual,
                          req_userId = userId (job_payload j) \<rparr> = Inr r"
  shows "processor identifyInsect j =
           (Inr r, j \<lparr> progress := 100 \<rparr>,
            [UpdateProgress 10, ConvertBuffer, UpdateProgress 30, IdentifyInsect,
             UpdateProgress 100])
         \<and> (state j = Waiting \<and> classification (env (attemptsMade j + 1)) = identifyInsect
              \<longrightarrow> state (last (run_job env j)) = Completed
                  \<and> progress (last (run_job env j)) = 100
                  \<and> returnvalue (last (run_job env j)) = Some r
                  \<and> finishedOn (last (run_job env j))
                      = Some (settledAt (env (attemptsMade j + 1)))
                  \<and> length (run_job env j) = 3)"
proof -
  have first: "processor identifyInsect a =
                 (Inr r, a \<lparr> progress := 100 \<rparr>,
                  [UpdateProgress 10, ConvertBuffer, UpdateProgress 30, IdentifyInsect,
                   UpdateProgress 100])"
    if "job_payload a = job_payload j" for a :: "'a job"
    using assms that by (simp add: processor_def updateProgress_def Let_def)
  have "state (last (run_job env j)) = Completed
        \<and> progress (last (run_job env j)) = 100
        \<and> returnvalue (last (run_job env j)) = Some r
        \<and> finishedOn (last (run_job env j)) = Some (settledAt (env (attemptsMade j + 1)))
        \<and> length (run_job env j) = 3"
    if w: "state j = Waiting" and c: "classification (env (attemptsMade j + 1)) = identifyInsect"
  proof -
    have p: "processor (classification (env (attemptsMade j + 1))) (claimed env j) =
               (Inr r, claimed env j \<lparr> progress := 100 \<rparr>,
                [UpdateProgress 10, ConvertBuffer, UpdateProgress 30, IdentifyInsect,
                 UpdateProgress 100])"
      unfolding c by (rule first) (simp add: claimed_def claim_def)
    then have "run_job env j =
                 [claimed env j, processed env j,
                  moveToCompleted (settledAt (env (attemptsMade j + 1))) r (processed env j)]"
      using w by (intro run_job_complete) simp_all
    moreover have "processed env j = claimed env j \<lparr> progress := 100 \<rparr>"
      using p by (simp add: processed_def)
    ultimately show ?thesis
      by (simp add: moveToCompleted_def)
  qed
  with first [of j] show ?thesis
    by simp
qed

theorem processor_order_witness:
  "processor (\<lambda>q. Inr 7) sample_job =
     (Inr 7, sample_job \<lparr> progress := 100 \<rparr>,
      [UpdateProgress 10, ConvertBuffer, UpdateProgress 30, IdentifyInsect,
       UpdateProgress 100])
   \<and> state (last (run_job succeeding_env sample_job)) = Completed
   \<and> progress (last (run_job succeeding_env sample_job)) = 100
   \<and> returnvalue (last (run_job succeeding_env sample_job)) = Some 7
   \<and> finishedOn (last (run_job succeeding_env sample_job)) = Some 15"
proof -
  have d: "actualBuffer (imageBuffer (job_payload sample_job)) = Inr [1, 2]"
    by (simp add: sample_job_def sample_data_def wire_data_def actualBuffer_def toJSON_def
          toUint8_def)
  have c: "(\<lambda>q. Inr (7 :: nat))
             \<lparr> req_image = imageFile (job_payload sample_job) [1, 2],
               req_userId = userId (job_payload sample_job) \<rparr> = Inr 7"
    by simp
  have w: "state sample_job = Waiting"
    "classification (succeeding_env (attemptsMade sample_job + 1)) = (\<lambda>q. Inr 7)"
    "settledAt (succeeding_env (attemptsMade sample_job + 1)) = 15"
    by (simp_all add: sample_job_def succeeding_env_def)
  show ?thesis
    using processor_order [OF d c, of succeeding_env] w by simp
qed

section \<open>Result and failure reason\<close>

lemma run_job_invariant:
  assumes "returnvalue j = None"
  shows "\<forall>s \<in> set (run_job env j). opts s = opts j \<and> job_id s = job_id j \<and> result_held s"
  using assms
proof (induction k \<equiv> "attempts (opts j) - attemptsMade j" arbitrary: j rule: less_induct)
  case less
  note fresh = less.prems
  show ?case
  proof (cases "state j = Waiting")
    case False
    then show ?thesis by (simp add: run_job_not_waiting)
  next
    case True
    let ?out = "fst (processor (classification (env (attemptsMade j + 1))) (claimed env j))"
    have first: "opts (claimed env j) = opts j" "job_id (claimed env j) = job_id j"
      "result_held (claimed env j)" "opts (processed env j) = opts j"
      "job_id (processed env j) = job_id j" "result_held (processed env j)"
      using fresh
      by (simp_all add: claimed_def claim_def processed_def processor_keeps result_held_def)
    show ?thesis
    proof (cases ?out)
      case (Inr r)
      have "result_held (moveToCompleted t r (processed env j))" for t
        by (simp add: moveToCompleted_def result_held_def)
      then show ?thesis
        using first by (simp add: run_job_complete [OF True Inr] moveToCompleted_def)
    next
      case (Inl e)
      show ?thesis
      proof (cases "attemptsMade j + 1 < attempts (opts j)")
        case False
        have "result_held (moveToFailed t e (processed env j))" for t
          using fresh
          by (simp add: moveToFailed_def result_held_def processed_def processor_keeps
                claimed_def claim_def)
        then show ?thesis
          using first by (simp add: run_job_fail [OF True Inl False] moveToFailed_def)
      next
        case retry: True
        let ?w = "promote (moveToDelayed (processed env j))"
        have run: "run_job env j =
                     [claimed env j, processed env j, moveToDelayed (processed env j), ?w]
                     @ run_job env ?w"
          using True Inl retry by (intro run_job_retry) simp_all
        have mid: "opts (moveToDelayed (processed env j)) = opts j"
          "job_id (moveToDelayed (processed env j)) = job_id j"
          "result_held (moveToDelayed (processed env j))"
          "opts ?w = opts j" "job_id ?w = job_id j" "result_held ?w"
          using fresh
          by (simp_all add: moveToDelayed_def promote_def result_held_def processed_def
                processor_keeps claimed_def claim_def)
        have "attempts (opts ?w) - attemptsMade ?w < attempts (opts j) - attemptsMade j"
          using retry by (simp add: retried_fields)
        moreover have "returnvalue ?w = None"
          using fresh by (simp add: retried_fields)
        ultimately have
          "\<forall>s \<in> set (run_job env ?w).
             opts s = opts ?w \<and> job_id s = job_id ?w \<and> result_held s"
          by (rule less.hyps)
        then show ?thesis
          using first mid by (simp add: run)
      qed
    qed
  qed
qed

text \<open>
  C3, as stated, fails. The status copies the envelope's result and failure reason
  whatever its state, and the broker records the message of each failed attempt in the
  envelope: a job delayed after a failed attempt shows a failure reason in a state that
  is not terminal, and a job completed on a later attempt shows both a result and a
  failure reason.
\<close>

theorem status_not_exclusive:
  "(case getJobStatus
           \<lparr> jobs = [''insect-1-a'' \<mapsto> delayed_after_failure], reachable = True \<rparr>
           ''insect-1-a'' of
      Some (Inr (Some st)) \<Rightarrow>
        status_state st = Delayed
        \<and> status_failedReason st = Some ''Failed to identify insect''
        \<and> \<not> exclusive st
    | _ \<Rightarrow> False)
   \<and> (case getJobStatus
             \<lparr> jobs = [''insect-1-a'' \<mapsto> completed_after_retry], reachable = True \<rparr>
             ''insect-1-a'' of
        Some (Inr (Some st)) \<Rightarrow>
          status_state st = Completed \<and> result st = Some 7
          \<and> status_failedReason st = Some ''Failed to identify insect''
          \<and> \<not> exclusive st
      | _ \<Rightarrow> False)"
  by (simp add: getJobStatus_def queue_getJob_def exclusive_def delayed_after_failure_def
        completed_after_retry_def sample_job_def)

text \<open>
  C3, amended. The status shows the state, the result and the failure reason of the
  envelope unchanged, with no guard on the state, so a status is exclusive exactly when
  the envelope read is. In every value an enqueued envelope takes, a completed job has a
  result, a failed job has a failure reason and no result, and a job in any other state
  has no result.
\<close>

theorem status_mirrors_envelope:
  assumes "reachable b" and "jobs b jid = Some s"
  shows "case getJobStatus b jid of
           Some (Inr (Some st)) \<Rightarrow>
             status_state st = state s \<and> result st = returnvalue s
             \<and> status_failedReason st = failedReason s
             \<and> exclusive st = settled s
             \<and> (queue_add redisConnection defaultJobOptions q now name d i
                    = Some (Inr (j, q'))
                  \<and> s \<in> set (j # run_job env j)
                \<longrightarrow> (case status_state st of
                       Completed \<Rightarrow> result st \<noteq> None
                     | Failed \<Rightarrow> result st = None \<and> status_failedReason st \<noteq> None
                     | _ \<Rightarrow> result st = None))
         | _ \<Rightarrow> False"
proof -
  have held: "result_held s"
    if e: "queue_add redisConnection defaultJobOptions q now name d i = Some (Inr (j, q'))"
      and m: "s \<in> set (j # run_job env j)"
  proof -
    note fresh = queue_add_job [OF e]
    have "result_held j"
      using fresh by (simp add: result_held_def)
    moreover have "\<forall>s \<in> set (run_job env j). result_held s"
      using run_job_invariant [OF fresh(4)] by simp
    ultimately show ?thesis
      using m by auto
  qed
  show ?thesis
    using assms held
    by (cases "state s")
       (auto simp: getJobStatus_def queue_getJob_def exclusive_def settled_def
          result_held_def)
qed

theorem status_mirrors_envelope_witness:
  "case getJobStatus
          \<lparr> jobs = [''insect-1-a'' \<mapsto> sample_completed], reachable = True \<rparr>
          ''insect-1-a'' of
     Some (Inr (Some st)) \<Rightarrow>
       status_state st = Completed \<and> result st = Some 7
       \<and> status_failedReason st = None \<and> exclusive st
   | _ \<Rightarrow> False"
proof -
  let ?b = "\<lparr> jobs = [''insect-1-a'' \<mapsto> sample_completed], reachable = True \<rparr>"
  have r: "reachable ?b" and h: "jobs ?b ''insect-1-a'' = Some sample_completed"
    by simp_all
  have m: "sample_completed \<in> set (sample_job # run_job succeeding_env sample_job)"
    by (simp add: sample_completes sample_completed_def)
  have s: "settled sample_completed"
    by (simp add: settled_def sample_completed_fields)
  obtain st where g: "getJobStatus ?b ''insect-1-a'' = Some (Inr (Some st))"
    by (simp add: getJobStatus_def queue_getJob_def)
  have "status_state st = state sample_completed \<and> result st = returnvalue sample_completed
        \<and> status_failedReason st = failedReason sample_completed
        \<and> exclusive st = settled sample_completed
        \<and> (case status_state st of
              Completed \<Rightarrow> result st \<noteq> None
            | Failed \<Rightarrow> result st = None \<and> status_failedReason st \<noteq> None
            | _ \<Rightarrow> result st = None)"
    using status_mirrors_envelope
            [OF r h, where q = sample_broker and now = 1 and name = "''identify-insect''"
               and d = sample_data and i = "''insect-1-a''" and j = sample_job
               and q' = "sample_broker
                           \<lparr> jobs := (jobs sample_broker)(''insect-1-a'' \<mapsto> sample_job) \<rparr>"
               and env = succeeding_env]
          g sample_enqueued m
    by (simp add: sample_completed_fields)
  then show ?thesis
    using g s by (simp add: sample_completed_fields)
qed

section \<open>Retention\<close>

lemma length_filter_mono:
  "(\<And>x. x \<in> set xs \<Longrightarrow> P x \<Longrightarrow> Q x) \<Longrightarrow> length (filter P xs) \<le> length (filter Q xs)"
  by (induction xs) auto

lemma newer_mono:
  assumes "state s' = state s" and "finished_at s' \<le> finished_at s"
  shows "newer js s \<le> newer js s'"
  unfolding newer_def using assms by (intro length_filter_mono) auto

text \<open>
  C9. An envelope enqueued with the queue's options carries, in every value it takes, the
  retention policy of the source: completed, it is eligible for removal once it has been
  finished for more than 3600 seconds or once 100 later-finished completed envelopes
  exist; failed, once it has been finished for more than 86400 seconds. Among completed
  envelopes under the same options the older go first: when one is eligible, every one
  that finished no later is eligible too.
\<close>

theorem retention_policy:
  assumes "queue_add redisConnection defaultJobOptions b0 now name d jid = Some (Inr (j, b1))"
    and "s \<in> set (run_job env j)"
  shows "removeOnComplete (opts s) = \<lparr> keep_age = Some 3600, keep_count = Some 100 \<rparr>
         \<and> removeOnFail (opts s) = \<lparr> keep_age = Some 86400, keep_count = None \<rparr>
         \<and> (eligible t js s \<longleftrightarrow>
               state s = Completed
                 \<and> (finished_at s + 3600 * 1000 < t \<or> 100 \<le> newer js s)
               \<or> state s = Failed \<and> finished_at s + 86400 * 1000 < t)
         \<and> (\<forall>s'. state s = Completed \<and> state s' = Completed \<and> opts s' = opts s
                  \<and> finished_at s' \<le> finished_at s \<and> eligible t js s
                \<longrightarrow> eligible t js s')"
proof -
  note fresh = queue_add_job [OF assms(1)]
  have "opts s = opts j"
    using run_job_invariant [OF fresh(4)] assms(2) by simp
  then have o: "opts s = defaultJobOptions \<lparr> jobId := Some jid \<rparr>"
    using fresh(3) by simp
  have keep: "removeOnComplete (opts s) = \<lparr> keep_age = Some 3600, keep_count = Some 100 \<rparr>"
    "removeOnFail (opts s) = \<lparr> keep_age = Some 86400, keep_count = None \<rparr>"
    by (simp_all add: o defaultJobOptions_def)
  have elig: "eligible t js s \<longleftrightarrow>
               state s = Completed
                 \<and> (finished_at s + 3600 * 1000 < t \<or> 100 \<le> newer js s)
               \<or> state s = Failed \<and> finished_at s + 86400 * 1000 < t"
    by (cases "state s") (simp_all add: eligible_def keep expired_def over_count_def)
  have oldest: "eligible t js s'"
    if "state s = Completed" "state s' = Completed" "opts s' = opts s"
      "finished_at s' \<le> finished_at s" "eligible t js s" for s'
  proof -
    have "finished_at s + 3600 * 1000 < t \<or> 100 \<le> newer js s"
      using that(1,5) elig by simp
    moreover have "newer js s \<le> newer js s'"
      using that(1,2,4) by (intro newer_mono) simp_all
    ultimately have "finished_at s' + 3600 * 1000 < t \<or> 100 \<le> newer js s'"
      using that(4) by linarith
    then show ?thesis
      using that(2,3) by (simp add: eligible_def keep expired_def over_count_def)
  qed
  show ?thesis
    using keep elig oldest by blast
qed

theorem retention_policy_witness:
  "eligible 3700000 [] (sample_completed)
   \<and> \<not> eligible 3600000 [] (sample_completed)"
proof -
  let ?s = "sample_completed"
  have m: "?s \<in> set (run_job succeeding_env sample_job)"
    by (simp add: sample_completes sample_completed_def)
  have "state ?s = Completed" "finished_at ?s = 15"
    by (simp_all add: sample_completed_def moveToCompleted_def finished_at_def)
  then show ?thesis
    using retention_policy [OF sample_enqueued m, of 3700000 "[]"]
      retention_policy [OF sample_enqueued m, of 3600000 "[]"]
    by (simp add: newer_def)
qed

end
